theory Spec2Isabelle
  imports Main "HOL-Library.Word"
begin

unbundle bit_operations_syntax

section \<open>The packed records of a DX7 bank dump\<close>

text \<open>
  The program reads a 4104-byte file and reinterprets the buffer as a \<open>DX7Sysex\<close>
  structure made of \<open>unsigned char\<close> members and bit-fields.  A member declared
  \<open>unsigned char f : n\<close> is an \<open>n\<close>-bit word here; a plain member is a byte.
  The views \<open>OperatorPacked_of\<close>, \<open>VoicePacked_of\<close> and \<open>DX7Sysex_of\<close> stand for the
  \<open>reinterpret_cast\<close>: bit-fields are taken from the least significant bit of their byte
  upwards, in declaration order, which is the layout g++ uses on little-endian targets.
\<close>

type_synonym byte = "8 word"

record OperatorPacked =
  egRate1 :: byte
  egRate2 :: byte
  egRate3 :: byte
  egRate4 :: byte
  egLevel1 :: byte
  egLevel2 :: byte
  egLevel3 :: byte
  egLevel4 :: byte
  levelScaleBreakPoint :: byte
  levelScaleLeftDepth :: byte
  levelScaleRightDepth :: byte
  levelScaleLeftCurve :: "2 word"
  levelScaleRightCurve :: "2 word"
  oscillatorRateScale :: "3 word"
  detune :: "4 word"
  amplitudeModulationSensitivity :: "2 word"
  keyVelocitySensitivity :: "3 word"
  outputLevel :: byte
  oscillatorMode :: "1 word"
  frequencyCoarse :: "5 word"
  frequencyFine :: byte

record VoicePacked =
  operators :: "OperatorPacked list"
  pitchEgRate1 :: byte
  pitchEgRate2 :: byte
  pitchEgRate3 :: byte
  pitchEgRate4 :: byte
  pitchEgLevel1 :: byte
  pitchEgLevel2 :: byte
  pitchEgLevel3 :: byte
  pitchEgLevel4 :: byte
  algorithm :: "5 word"
  feedback :: "3 word"
  oscillatorKeySync :: "1 word"
  lfoRate :: byte
  lfoDelay :: byte
  lfoPitchModulationDepth :: byte
  lfoAmplitudeModulationDepth :: byte
  lfoKeySync :: "1 word"
  lfoWave :: "3 word"
  lfoPitchModulationSensitivity :: "4 word"
  transpose :: byte
  name :: "byte list"

text \<open>
  \<open>voices\<close> keeps the 32 voice records as the 4096 raw bytes they occupy: \<open>verify\<close>
  and \<open>findDuplicates\<close> read them through an \<open>unsigned char *\<close>, \<open>format\<close> through
  the typed view \<open>voice_at\<close>.
\<close>

record DX7Sysex =
  sysexBeginF0 :: byte
  yamaha43 :: byte
  subStatusAndChannel :: byte
  format9 :: byte
  sizeMsb :: byte
  sizeLsb :: byte
  voices :: "byte list"
  checksum :: byte
  sysexEndF7 :: byte

definition sizeof_OperatorPacked :: nat where
  "sizeof_OperatorPacked = 17"

definition sizeof_VoicePacked :: nat where
  "sizeof_VoicePacked = 128"

definition sysexSize :: nat where
  "sysexSize = 4104"

text \<open>Bits \<open>off .. off + LENGTH('a) - 1\<close> of a byte, as a bit-field of that width.\<close>

definition bitfield :: "byte \<Rightarrow> nat \<Rightarrow> 'a::len word" where
  "bitfield b off = ucast (drop_bit off b)"

definition OperatorPacked_of :: "byte list \<Rightarrow> OperatorPacked" where
  "OperatorPacked_of bs =
     \<lparr> egRate1 = bs ! 0, egRate2 = bs ! 1, egRate3 = bs ! 2, egRate4 = bs ! 3,
       egLevel1 = bs ! 4, egLevel2 = bs ! 5, egLevel3 = bs ! 6, egLevel4 = bs ! 7,
       levelScaleBreakPoint = bs ! 8,
       levelScaleLeftDepth = bs ! 9,
       levelScaleRightDepth = bs ! 10,
       levelScaleLeftCurve = bitfield (bs ! 11) 0,
       levelScaleRightCurve = bitfield (bs ! 11) 2,
       oscillatorRateScale = bitfield (bs ! 12) 0,
       detune = bitfield (bs ! 12) 3,
       amplitudeModulationSensitivity = bitfield (bs ! 13) 0,
       keyVelocitySensitivity = bitfield (bs ! 13) 2,
       outputLevel = bs ! 14,
       oscillatorMode = bitfield (bs ! 15) 0,
       frequencyCoarse = bitfield (bs ! 15) 1,
       frequencyFine = bs ! 16 \<rparr>"

text \<open>The bytes of element \<open>j\<close> of the array \<open>operators[6]\<close> at the start of a voice.\<close>

definition operator_slot :: "byte list \<Rightarrow> nat \<Rightarrow> byte list" where
  "operator_slot bs j = take sizeof_OperatorPacked (drop (sizeof_OperatorPacked * j) bs)"

definition VoicePacked_of :: "byte list \<Rightarrow> VoicePacked" where
  "VoicePacked_of bs =
     \<lparr> operators = map (\<lambda>j. OperatorPacked_of (operator_slot bs j)) [0..<6],
       pitchEgRate1 = bs ! 102, pitchEgRate2 = bs ! 103,
       pitchEgRate3 = bs ! 104, pitchEgRate4 = bs ! 105,
       pitchEgLevel1 = bs ! 106, pitchEgLevel2 = bs ! 107,
       pitchEgLevel3 = bs ! 108, pitchEgLevel4 = bs ! 109,
       algorithm = bitfield (bs ! 110) 0,
       feedback = bitfield (bs ! 111) 0,
       oscillatorKeySync = bitfield (bs ! 111) 3,
       lfoRate = bs ! 112,
       lfoDelay = bs ! 113,
       lfoPitchModulationDepth = bs ! 114,
       lfoAmplitudeModulationDepth = bs ! 115,
       lfoKeySync = bitfield (bs ! 116) 0,
       lfoWave = bitfield (bs ! 116) 1,
       lfoPitchModulationSensitivity = bitfield (bs ! 116) 4,
       transpose = bs ! 117,
       name = take 10 (drop 118 bs) \<rparr>"

definition DX7Sysex_of :: "byte list \<Rightarrow> DX7Sysex" where
  "DX7Sysex_of buffer =
     \<lparr> sysexBeginF0 = buffer ! 0, yamaha43 = buffer ! 1,
       subStatusAndChannel = buffer ! 2, format9 = buffer ! 3,
       sizeMsb = buffer ! 4, sizeLsb = buffer ! 5,
       voices = take 4096 (drop 6 buffer),
       checksum = buffer ! 4102, sysexEndF7 = buffer ! 4103 \<rparr>"

text \<open>The raw bytes of \<open>sysex->voices[i]\<close> and the typed view of them.\<close>

definition voice_bytes :: "DX7Sysex \<Rightarrow> nat \<Rightarrow> byte list" where
  "voice_bytes sysex i = take sizeof_VoicePacked (drop (sizeof_VoicePacked * i) (voices sysex))"

definition voice_at :: "DX7Sysex \<Rightarrow> nat \<Rightarrow> VoicePacked" where
  "voice_at sysex i = VoicePacked_of (voice_bytes sysex i)"

section \<open>Printing numbers\<close>

definition digit_char :: "nat \<Rightarrow> char" where
  "digit_char d = ''0123456789'' ! d"

text \<open>The decimal digits of an unsigned number (\<open>%u\<close>, and \<open><<\<close> on an \<open>int\<close> that is not negative).\<close>

fun dec :: "nat \<Rightarrow> string" where
  "dec n = (if n < 10 then [digit_char n] else dec (n div 10) @ [digit_char (n mod 10)])"

declare dec.simps [simp del]

text \<open>\<open>%d\<close>: a signed decimal.\<close>

definition dec_int :: "int \<Rightarrow> string" where
  "dec_int k = (if k < 0 then CHR ''-'' # dec (nat (- k)) else dec (nat k))"

text \<open>\<open>std::setfill('0') << std::setw(2) << n\<close>: at least two characters, filled with zeros on the left.\<close>

definition setw2 :: "nat \<Rightarrow> string" where
  "setw2 n = replicate (2 - length (dec n)) CHR ''0'' @ dec n"

section \<open>The validator\<close>

datatype verify_error =
    NoSysexStart
  | NoYamaha
  | NoSubstatus
  | NoFormat9
  | NoSize4096
  | NoSysexEnd
  | ChecksumFailed byte

text \<open>The line \<open>verify\<close> prints before it returns 1.\<close>

fun verify_message :: "verify_error \<Rightarrow> string" where
  "verify_message NoSysexStart = ''Did not find sysex start 0xF0.''"
| "verify_message NoYamaha = ''Did not find Yamaha 0x43.''"
| "verify_message NoSubstatus = ''Did not find substatus 0 and channel 1.''"
| "verify_message NoFormat9 = ''Did not find format 9 (32 voices).''"
| "verify_message NoSize4096 = ''Did not find size 4096.''"
| "verify_message NoSysexEnd = ''Did not find sysex end 0xF7.''"
| "verify_message (ChecksumFailed s) = ''Checksum failed: Should have been 0x'' @ dec (unat s)"

text \<open>
  The loop \<open>for (unsigned i = 0; i < 4096; ++i) sum += (p[i] & 0x7F);\<close> on an
  \<open>unsigned char sum\<close>: the addition wraps at 256.
\<close>

function checksum_loop :: "byte list \<Rightarrow> nat \<Rightarrow> byte \<Rightarrow> byte" where
  "checksum_loop p i s =
     (if i < 4096 then checksum_loop p (i + 1) (s + (p ! i AND 0x7F)) else s)"
  by pat_completeness auto
termination
  by (relation "measure (\<lambda>(p, i, s). 4096 - i)") auto

declare checksum_loop.simps [simp del]

text \<open>
  \<open>sum = static_cast<unsigned char>((~sum) + 1); sum &= 0x7F;\<close> The operand of \<open>~\<close> is
  promoted to \<open>int\<close>, the cast takes the result back to 8 bits.
\<close>

definition computed_checksum :: "byte list \<Rightarrow> byte" where
  "computed_checksum p =
     (let s = checksum_loop p 0 0;
          s = (word_of_int (NOT (uint s) + 1) :: byte)
      in s AND 0x7F)"

definition verify :: "DX7Sysex \<Rightarrow> verify_error + unit" where
  "verify sysex =
     (if sysexBeginF0 sysex \<noteq> 0xF0 then Inl NoSysexStart
      else if yamaha43 sysex \<noteq> 0x43 then Inl NoYamaha
      else if subStatusAndChannel sysex \<noteq> 0 then Inl NoSubstatus
      else if format9 sysex \<noteq> 0x09 then Inl NoFormat9
      else if sizeMsb sysex \<noteq> 0x20 \<or> sizeLsb sysex \<noteq> 0 then Inl NoSize4096
      else if sysexEndF7 sysex \<noteq> 0xF7 then Inl NoSysexEnd
      else let s = computed_checksum (voices sysex)
           in if s \<noteq> checksum sysex then Inl (ChecksumFailed s) else Inr ())"

text \<open>
  The checksum in the words of the specification: the bytes are masked to 7 bits and added
  without bound; the two's complement of the sum is masked to 7 bits.
\<close>

definition masked_sum :: "byte list \<Rightarrow> int" where
  "masked_sum p = (\<Sum>b\<leftarrow>p. uint (b AND 0x7F))"

definition recomputeChecksum :: "byte list \<Rightarrow> int" where
  "recomputeChecksum p = (- masked_sum p) mod 128"

text \<open>The six marker checks that come before the checksum all pass.\<close>

definition markers_ok :: "DX7Sysex \<Rightarrow> bool" where
  "markers_ok sysex =
     (sysexBeginF0 sysex = 0xF0 \<and> yamaha43 sysex = 0x43 \<and> subStatusAndChannel sysex = 0 \<and>
      format9 sysex = 0x09 \<and> sizeMsb sysex = 0x20 \<and> sizeLsb sysex = 0 \<and>
      sysexEndF7 sysex = 0xF7)"

section \<open>Lookup tables\<close>

text \<open>
  The parameter \<open>x\<close> of these functions is an \<open>unsigned\<close>, 32 bits wide; the callers pass
  promoted \<open>unsigned char\<close> members and bit-fields.
\<close>

type_synonym u32 = "32 word"

definition onOff :: "u32 \<Rightarrow> string" where
  "onOff x = (if x > 1 then ''*out of range*'' else [''Off'', ''On''] ! unat x)"

definition curve :: "u32 \<Rightarrow> string" where
  "curve x = (if x > 3 then ''*out of range*''
              else [''-LIN'', ''-EXP'', ''+EXP'', ''+LIN''] ! unat x)"

definition lfoWave_str :: "u32 \<Rightarrow> string" where
  "lfoWave_str x = (if x > 5 then ''*out of range*''
                    else [''Triangle'', ''Sawtooth Down'', ''Sawtooth Up'', ''Square'', ''Sine'',
                          ''Sample and Hold''] ! unat x)"

definition mode :: "u32 \<Rightarrow> string" where
  "mode x = (if x > 1 then ''*out of range*'' else [''Ratio'', ''Fixed''] ! unat x)"

definition note_names :: "string list" where
  "note_names = [''C'', ''C#'', ''D'', ''D#'', ''E'', ''F'', ''F#'', ''G'', ''G#'', ''A'', ''A#'', ''B'']"

definition note_str :: "u32 \<Rightarrow> string" where
  "note_str x = (let x = x mod 12 in note_names ! unat x)"

text \<open>\<open>snprintf(buffer, 9, ...)\<close> keeps at most 8 characters.\<close>

definition transpose_str :: "u32 \<Rightarrow> string" where
  "transpose_str x =
     (if x > 48 then ''*out of range*''
      else take 8 (note_str x @ dec (unat (x div 12 + 1))))"

text \<open>Division of C's \<open>int\<close>: the quotient is truncated towards zero.\<close>

definition c_div :: "int \<Rightarrow> int \<Rightarrow> int" where
  "c_div a b = sgn a * sgn b * (\<bar>a\<bar> div \<bar>b\<bar>)"

definition breakPoint :: "u32 \<Rightarrow> string" where
  "breakPoint x =
     (if x > 99 then ''*out of range*''
      else let octave = c_div (sint x - 3 + 12) 12 - 1
           in take 8 (note_str (x + 9) @ dec_int octave))"

section \<open>The listing\<close>

text \<open>
  The output is the list of lines written to \<open>std::cout\<close>, one for each \<open>std::endl\<close>.
  \<open>std::cout << name\<close> writes a \<open>char\<close> array up to its first zero byte.
\<close>

definition c_str :: "byte list \<Rightarrow> string" where
  "c_str bs = map (\<lambda>b. char_of (unat b)) (takeWhile (\<lambda>b. b \<noteq> 0) bs)"

text \<open>
  In fixed mode the program prints \<open>pow(10, double(frequencyCoarse % 4) + double(frequencyFine) / 100)\<close>
  with the stream's default formatting of a \<open>double\<close>.  Both belong to the C++ library; the
  text they produce from the two integers is the parameter \<open>hz\<close> of the listing.
\<close>

type_synonym hz_text = "nat \<Rightarrow> nat \<Rightarrow> string"

definition frequency_text :: "hz_text \<Rightarrow> OperatorPacked \<Rightarrow> string" where
  "frequency_text hz op =
     (if oscillatorMode op = 0 then setw2 (unat (frequencyCoarse op))
      else hz (unat (frequencyCoarse op mod 4)) (unat (frequencyFine op)) @ '' Hz'')"

text \<open>One pass of the loop over \<open>i\<close> in \<open>format\<close>, for the operator \<open>op = voice->operators[5 - i]\<close>.\<close>

definition format_operator :: "hz_text \<Rightarrow> nat \<Rightarrow> OperatorPacked \<Rightarrow> string list" where
  "format_operator hz i op =
     [ [],
       ''Operator '' @ setw2 (i + 1) @ '': '',
       ''  Envelope Generator:'',
       ''    Rate 1: '' @ setw2 (unat (egRate1 op)),
       ''    Rate 2: '' @ setw2 (unat (egRate2 op)),
       ''    Rate 3: '' @ setw2 (unat (egRate3 op)),
       ''    Rate 4: '' @ setw2 (unat (egRate4 op)),
       ''    Level 1: '' @ setw2 (unat (egLevel1 op)),
       ''    Level 2: '' @ setw2 (unat (egLevel2 op)),
       ''    Level 3: '' @ setw2 (unat (egLevel3 op)),
       ''    Level 4: '' @ setw2 (unat (egLevel4 op)),
       ''  Level Scale:'',
       ''    Break Point: '' @ setw2 (unat (levelScaleBreakPoint op))
          @ '' ('' @ breakPoint (ucast (levelScaleBreakPoint op)) @ '')'',
       ''    Left Depth: '' @ setw2 (unat (levelScaleLeftDepth op)),
       ''    Right Depth: '' @ setw2 (unat (levelScaleRightDepth op)),
       ''    Left Curve: '' @ setw2 (unat (levelScaleLeftCurve op))
          @ '' ('' @ curve (ucast (levelScaleLeftCurve op)) @ '')'',
       ''    Right Curve: '' @ setw2 (unat (levelScaleRightCurve op))
          @ '' ('' @ curve (ucast (levelScaleRightCurve op)) @ '')'',
       ''  Oscillator Rate Scale: '' @ setw2 (unat (oscillatorRateScale op)),
       ''  Amp Mod Sense: '' @ setw2 (unat (amplitudeModulationSensitivity op)),
       ''  Key Velocity Sense: '' @ setw2 (unat (keyVelocitySensitivity op)),
       ''  Output Level: '' @ setw2 (unat (outputLevel op)),
       ''  Oscillator Mode: '' @ setw2 (unat (oscillatorMode op))
          @ '' ('' @ mode (ucast (oscillatorMode op)) @ '')'',
       ''  Frequency Course: '' @ frequency_text hz op,
       ''  Frequency Fine: '' @ setw2 (unat (frequencyFine op)),
       ''  Detune: '' @ setw2 (unat (detune op)) ]"

text \<open>
  The loop \<open>for (unsigned i = 0; i < 6; ++i)\<close>: operator \<open>i + 1\<close> is read from
  \<open>voice->operators[j]\<close> with \<open>j = 5 - i\<close>.
\<close>

function format_operators :: "hz_text \<Rightarrow> VoicePacked \<Rightarrow> nat \<Rightarrow> string list" where
  "format_operators hz voice i =
     (if i < 6
      then (let j = 5 - i; op = operators voice ! j in format_operator hz i op)
           @ format_operators hz voice (i + 1)
      else [])"
  by pat_completeness auto
termination
  by (relation "measure (\<lambda>(hz, voice, i). 6 - i)") auto

declare format_operators.simps [simp del]

text \<open>The lines of the long listing of a voice that come before its operators.\<close>

definition format_voice_head :: "string \<Rightarrow> nat \<Rightarrow> VoicePacked \<Rightarrow> string list" where
  "format_voice_head filename voiceNumber voice =
     [ [],
       ''Filename: '' @ filename,
       ''Voice: '' @ setw2 (voiceNumber + 1),
       ''Name: '' @ c_str (name voice @ [0]),
       [],
       ''Algorithm: '' @ setw2 (unat (algorithm voice) + 1),
       ''Pitch Envelope Generator:'',
       ''  Rate 1: '' @ setw2 (unat (pitchEgRate1 voice)),
       ''  Rate 2: '' @ setw2 (unat (pitchEgRate2 voice)),
       ''  Rate 3: '' @ setw2 (unat (pitchEgRate3 voice)),
       ''  Rate 4: '' @ setw2 (unat (pitchEgRate4 voice)),
       ''  Level 1: '' @ setw2 (unat (pitchEgLevel1 voice)),
       ''  Level 2: '' @ setw2 (unat (pitchEgLevel2 voice)),
       ''  Level 3: '' @ setw2 (unat (pitchEgLevel3 voice)),
       ''  Level 4: '' @ setw2 (unat (pitchEgLevel4 voice)),
       ''Feedback: '' @ setw2 (unat (feedback voice)),
       ''Oscillator Key Sync: '' @ setw2 (unat (oscillatorKeySync voice))
          @ '' ('' @ onOff (ucast (oscillatorKeySync voice)) @ '')'',
       ''LFO:'',
       ''  Rate: '' @ setw2 (unat (lfoRate voice)),
       ''  Delay: '' @ setw2 (unat (lfoDelay voice)),
       ''  Amp Mod Depth: '' @ setw2 (unat (lfoAmplitudeModulationDepth voice)),
       ''  Pitch Mod Depth: '' @ setw2 (unat (lfoPitchModulationDepth voice)),
       ''  Key Sync: '' @ setw2 (unat (lfoKeySync voice))
          @ '' ('' @ onOff (ucast (lfoKeySync voice)) @ '')'',
       ''  Wave: '' @ setw2 (unat (lfoWave voice))
          @ '' ('' @ lfoWave_str (ucast (lfoWave voice)) @ '')'',
       ''Pitch Mod Sense: '' @ setw2 (unat (lfoPitchModulationSensitivity voice)),
       ''Transpose: '' @ setw2 (unat (transpose voice))
          @ '' ('' @ transpose_str (ucast (transpose voice)) @ '')'' ]"

text \<open>The body of the loop over the voices, past the \<open>continue\<close> of the patch filter.\<close>

definition format_voice :: "hz_text \<Rightarrow> string \<Rightarrow> bool \<Rightarrow> nat \<Rightarrow> VoicePacked \<Rightarrow> string list" where
  "format_voice hz filename displayLongListing voiceNumber voice =
     (if \<not> displayLongListing
      then [setw2 (voiceNumber + 1) @ '': '' @ c_str (name voice @ [0])]
      else format_voice_head filename voiceNumber voice
           @ format_operators hz voice 0
           @ [[], ''-------------------------------------------------'', []])"

text \<open>
  The loop \<open>for (unsigned voiceNumber = 0; voiceNumber < 32; ++voiceNumber)\<close>.
  \<open>patchToDisplay\<close> is a \<open>long\<close>; \<open>main\<close> passes \<open>-1\<close> unless \<open>-p\<close> was given.
\<close>

function format_loop ::
  "hz_text \<Rightarrow> DX7Sysex \<Rightarrow> string \<Rightarrow> bool \<Rightarrow> int \<Rightarrow> nat \<Rightarrow> string list" where
  "format_loop hz sysex filename displayLongListing patchToDisplay voiceNumber =
     (if voiceNumber < 32
      then (if patchToDisplay \<ge> 0 \<and> patchToDisplay \<noteq> int voiceNumber + 1 then []
            else format_voice hz filename displayLongListing voiceNumber
                   (voice_at sysex voiceNumber))
           @ format_loop hz sysex filename displayLongListing patchToDisplay (voiceNumber + 1)
      else [])"
  by pat_completeness auto
termination
  by (relation "measure (\<lambda>(hz, sysex, filename, displayLongListing, patchToDisplay, voiceNumber).
        32 - voiceNumber)") auto

declare format_loop.simps [simp del]

definition format :: "hz_text \<Rightarrow> DX7Sysex \<Rightarrow> string \<Rightarrow> bool \<Rightarrow> int \<Rightarrow> string list" where
  "format hz sysex filename displayLongListing patchToDisplay =
     format_loop hz sysex filename displayLongListing patchToDisplay 0"

section \<open>The duplicate detector\<close>

text \<open>
  \<open>memcmp\<close> compares the first \<open>n\<close> bytes as unsigned values and returns the sign of the
  first difference, 0 if there is none.
\<close>

fun memcmp :: "byte list \<Rightarrow> byte list \<Rightarrow> nat \<Rightarrow> int" where
  "memcmp a b 0 = 0"
| "memcmp a b (Suc n) =
     (if hd a = hd b then memcmp (tl a) (tl b) n
      else if hd a < hd b then - 1 else 1)"

definition duplicate_line :: "int \<Rightarrow> int \<Rightarrow> string" where
  "duplicate_line i j =
     ''Found duplicates: Voice '' @ dec_int (i + 1) @ '' and voice '' @ dec_int (j + 1) @ ''.''"

text \<open>The inner loop \<open>for (int j = i + 1; j < 32; ++j)\<close>.\<close>

function findDuplicates_inner :: "DX7Sysex \<Rightarrow> int \<Rightarrow> int \<Rightarrow> string list" where
  "findDuplicates_inner sysex i j =
     (if j < 32
      then (let rc = memcmp (voice_bytes sysex (nat i)) (voice_bytes sysex (nat j))
                       (sizeof_VoicePacked - 10)
            in if rc = 0 then [duplicate_line i j] else [])
           @ findDuplicates_inner sysex i (j + 1)
      else [])"
  by pat_completeness auto
termination
  by (relation "measure (\<lambda>(sysex, i, j). nat (32 - j))") auto

declare findDuplicates_inner.simps [simp del]

text \<open>The outer loop \<open>for (int i = 0; i < 31; ++i)\<close>.\<close>

function findDuplicates_outer :: "DX7Sysex \<Rightarrow> int \<Rightarrow> string list" where
  "findDuplicates_outer sysex i =
     (if i < 31
      then findDuplicates_inner sysex i (i + 1) @ findDuplicates_outer sysex (i + 1)
      else [])"
  by pat_completeness auto
termination
  by (relation "measure (\<lambda>(sysex, i). nat (31 - i))") auto

declare findDuplicates_outer.simps [simp del]

definition findDuplicates :: "DX7Sysex \<Rightarrow> string list" where
  "findDuplicates sysex = findDuplicates_outer sysex 0"

section \<open>The program\<close>

text \<open>
  \<open>main\<close> once the options are parsed and the file is read into \<open>buffer\<close>: the lines
  written and the exit code.  \<open>patchToDisplay\<close> is \<open>-1\<close> unless \<open>-p\<close> was given, and \<open>-p\<close>
  also sets \<open>displayLongListing\<close>.
\<close>

definition main :: "hz_text \<Rightarrow> bool \<Rightarrow> bool \<Rightarrow> int \<Rightarrow> string \<Rightarrow> byte list \<Rightarrow> string list \<times> int" where
  "main hz displayLongListing shouldFindDuplicates patchToDisplay filename buffer =
     (if length buffer \<noteq> sysexSize
      then ([''Error: '' @ filename @ '' does not match the expected size of a sysex file.''], 1)
      else let sysex = DX7Sysex_of buffer
           in case verify sysex of
                Inl e \<Rightarrow>
                  ([verify_message e, ''Error: '' @ filename @ '' is not a valid sysex file.''], 1)
              | Inr _ \<Rightarrow>
                  (format hz sysex filename displayLongListing patchToDisplay
                     @ (if shouldFindDuplicates then findDuplicates sysex else []), 0))"

section \<open>The validator's checks as a list\<close>

text \<open>
  The seven checks in the order the specification gives them, what it means to pass each,
  and the error each one reports.
\<close>

datatype check =
    StartMarker
  | VendorMarker
  | SubStatus
  | FormatCode
  | SizeBytes
  | EndMarker
  | Checksum

definition checks_in_order :: "check list" where
  "checks_in_order = [StartMarker, VendorMarker, SubStatus, FormatCode, SizeBytes, EndMarker, Checksum]"

fun passes :: "DX7Sysex \<Rightarrow> check \<Rightarrow> bool" where
  "passes sysex StartMarker = (sysexBeginF0 sysex = 0xF0)"
| "passes sysex VendorMarker = (yamaha43 sysex = 0x43)"
| "passes sysex SubStatus = (subStatusAndChannel sysex = 0x00)"
| "passes sysex FormatCode = (format9 sysex = 0x09)"
| "passes sysex SizeBytes = ((sizeMsb sysex, sizeLsb sysex) = (0x20, 0x00))"
| "passes sysex EndMarker = (sysexEndF7 sysex = 0xF7)"
| "passes sysex Checksum = (checksum sysex = computed_checksum (voices sysex))"

fun reason :: "DX7Sysex \<Rightarrow> check \<Rightarrow> verify_error" where
  "reason sysex StartMarker = NoSysexStart"
| "reason sysex VendorMarker = NoYamaha"
| "reason sysex SubStatus = NoSubstatus"
| "reason sysex FormatCode = NoFormat9"
| "reason sysex SizeBytes = NoSize4096"
| "reason sysex EndMarker = NoSysexEnd"
| "reason sysex Checksum = ChecksumFailed (computed_checksum (voices sysex))"

definition failing_checks :: "DX7Sysex \<Rightarrow> check list" where
  "failing_checks sysex = filter (\<lambda>c. \<not> passes sysex c) checks_in_order"

text \<open>Short-circuit on the first failure.\<close>

definition validate :: "DX7Sysex \<Rightarrow> verify_error + unit" where
  "validate sysex =
     (case failing_checks sysex of [] \<Rightarrow> Inr () | c # _ \<Rightarrow> Inl (reason sysex c))"

section \<open>Sample banks\<close>

text \<open>
  A bank whose first two voices have the same parameters and different names
  (\<open>AAAAAAAAAA\<close> and \<open>BBBBBBBBBB\<close>), whose third voice differs from them in one parameter
  byte, and whose other voices are zero.
\<close>

definition sample_params :: "byte list" where
  "sample_params =
     0x85 # replicate 84 0 @ [0x63] @ replicate 24 0 @ [0x1F, 0x0F] @ replicate 5 0 @ [12]"

definition sample_voices :: "byte list" where
  "sample_voices =
     (sample_params @ replicate 10 0x41) @ (sample_params @ replicate 10 0x42)
     @ (0x86 # replicate 127 0) @ replicate 3712 0"

definition sample_bank :: DX7Sysex where
  "sample_bank =
     \<lparr> sysexBeginF0 = 0xF0, yamaha43 = 0x43, subStatusAndChannel = 0, format9 = 0x09,
       sizeMsb = 0x20, sizeLsb = 0, voices = sample_voices, checksum = 0x18,
       sysexEndF7 = 0xF7 \<rparr>"

text \<open>The file that holds the sample bank.\<close>

definition sample_buffer :: "byte list" where
  "sample_buffer = [0xF0, 0x43, 0x00, 0x09, 0x20, 0x00] @ sample_voices @ [0x18, 0xF7]"

text \<open>The same bank with a wrong vendor marker and a wrong checksum.\<close>

definition broken_bank :: DX7Sysex where
  "broken_bank = sample_bank \<lparr> yamaha43 := 0x44, checksum := 0x00 \<rparr>"

text \<open>The broken bank with a wrong start marker as well.\<close>

definition misframed_bank :: DX7Sysex where
  "misframed_bank = broken_bank \<lparr> sysexBeginF0 := 0x00 \<rparr>"

text \<open>A stand-in for the library's text of a fixed-mode frequency.\<close>

definition sample_hz :: hz_text where
  "sample_hz c f = ''1e'' @ dec c @ ''.'' @ setw2 f"

section \<open>The raw numeric members and the lines that print them\<close>

text \<open>
  Every member that \<open>format\<close> writes with \<open>std::setw(2)\<close> as it is stored: the index of its
  line in the listing of a voice head or of an operator, the label, the stored value, and
  the name that follows in parentheses when the member has one.
  The algorithm selector is not among them, \<open>format\<close> writes \<open>voice->algorithm + 1\<close>; nor is
  the coarse frequency, which is written so in ratio mode only.
\<close>

text \<open>The whole line of such a member.\<close>

definition raw_line :: "string \<Rightarrow> nat \<Rightarrow> string option \<Rightarrow> string" where
  "raw_line label v ann =
     label @ setw2 v @ (case ann of None \<Rightarrow> [] | Some nm \<Rightarrow> '' ('' @ nm @ '')'')"

definition voice_raw_fields :: "VoicePacked \<Rightarrow> (nat \<times> string \<times> nat \<times> string option) list" where
  "voice_raw_fields voice =
     [ (7, ''  Rate 1: '', unat (pitchEgRate1 voice), None),
       (8, ''  Rate 2: '', unat (pitchEgRate2 voice), None),
       (9, ''  Rate 3: '', unat (pitchEgRate3 voice), None),
       (10, ''  Rate 4: '', unat (pitchEgRate4 voice), None),
       (11, ''  Level 1: '', unat (pitchEgLevel1 voice), None),
       (12, ''  Level 2: '', unat (pitchEgLevel2 voice), None),
       (13, ''  Level 3: '', unat (pitchEgLevel3 voice), None),
       (14, ''  Level 4: '', unat (pitchEgLevel4 voice), None),
       (15, ''Feedback: '', unat (feedback voice), None),
       (16, ''Oscillator Key Sync: '', unat (oscillatorKeySync voice), Some (onOff (ucast (oscillatorKeySync voice)))),
       (18, ''  Rate: '', unat (lfoRate voice), None),
       (19, ''  Delay: '', unat (lfoDelay voice), None),
       (20, ''  Amp Mod Depth: '', unat (lfoAmplitudeModulationDepth voice), None),
       (21, ''  Pitch Mod Depth: '', unat (lfoPitchModulationDepth voice), None),
       (22, ''  Key Sync: '', unat (lfoKeySync voice), Some (onOff (ucast (lfoKeySync voice)))),
       (23, ''  Wave: '', unat (lfoWave voice), Some (lfoWave_str (ucast (lfoWave voice)))),
       (24, ''Pitch Mod Sense: '', unat (lfoPitchModulationSensitivity voice), None),
       (25, ''Transpose: '', unat (transpose voice), Some (transpose_str (ucast (transpose voice)))) ]"

definition operator_raw_fields :: "OperatorPacked \<Rightarrow> (nat \<times> string \<times> nat \<times> string option) list" where
  "operator_raw_fields op =
     [ (3, ''    Rate 1: '', unat (egRate1 op), None),
       (4, ''    Rate 2: '', unat (egRate2 op), None),
       (5, ''    Rate 3: '', unat (egRate3 op), None),
       (6, ''    Rate 4: '', unat (egRate4 op), None),
       (7, ''    Level 1: '', unat (egLevel1 op), None),
       (8, ''    Level 2: '', unat (egLevel2 op), None),
       (9, ''    Level 3: '', unat (egLevel3 op), None),
       (10, ''    Level 4: '', unat (egLevel4 op), None),
       (12, ''    Break Point: '', unat (levelScaleBreakPoint op), Some (breakPoint (ucast (levelScaleBreakPoint op)))),
       (13, ''    Left Depth: '', unat (levelScaleLeftDepth op), None),
       (14, ''    Right Depth: '', unat (levelScaleRightDepth op), None),
       (15, ''    Left Curve: '', unat (levelScaleLeftCurve op), Some (curve (ucast (levelScaleLeftCurve op)))),
       (16, ''    Right Curve: '', unat (levelScaleRightCurve op), Some (curve (ucast (levelScaleRightCurve op)))),
       (17, ''  Oscillator Rate Scale: '', unat (oscillatorRateScale op), None),
       (18, ''  Amp Mod Sense: '', unat (amplitudeModulationSensitivity op), None),
       (19, ''  Key Velocity Sense: '', unat (keyVelocitySensitivity op), None),
       (20, ''  Output Level: '', unat (outputLevel op), None),
       (21, ''  Oscillator Mode: '', unat (oscillatorMode op), Some (mode (ucast (oscillatorMode op)))),
       (23, ''  Frequency Fine: '', unat (frequencyFine op), None),
       (24, ''  Detune: '', unat (detune op), None) ]"

section \<open>Duplicates, in the words of the specification\<close>

text \<open>
  Voice slots are numbered from 1.  Two slots have the same parameters when the first
  \<open>sizeof(VoicePacked) - 10\<close> bytes of their records are equal; the pairs are taken with
  the first slot ascending and, for each, the second ascending from the one after it.
\<close>

definition same_parameters :: "DX7Sysex \<Rightarrow> nat \<Rightarrow> nat \<Rightarrow> bool" where
  "same_parameters sysex a b =
     (take (sizeof_VoicePacked - 10) (voice_bytes sysex (a - 1)) =
      take (sizeof_VoicePacked - 10) (voice_bytes sysex (b - 1)))"

definition voice_pairs :: "(nat \<times> nat) list" where
  "voice_pairs = concat (map (\<lambda>a. map (\<lambda>b. (a, b)) [a + 1..<33]) [1..<32])"

definition pair_before :: "nat \<times> nat \<Rightarrow> nat \<times> nat \<Rightarrow> bool" where
  "pair_before p q = (fst p < fst q \<or> (fst p = fst q \<and> snd p < snd q))"

definition duplicate_report :: "nat \<times> nat \<Rightarrow> string" where
  "duplicate_report p =
     ''Found duplicates: Voice '' @ dec (fst p) @ '' and voice '' @ dec (snd p) @ ''.''"

section \<open>The checksum\<close>

lemma checksum_loop_fold:
  "i \<le> 4096 \<Longrightarrow> length p = 4096 \<Longrightarrow>
   checksum_loop p i s = fold (\<lambda>b s. s + (b AND 0x7F)) (drop i p) s"
proof (induction p i s rule: checksum_loop.induct)
  case (1 p i s)
  show ?case
  proof (cases "i < 4096")
    case True
    then have d: "drop i p = p ! i # drop (i + 1) p"
      using "1.prems" by (simp add: Cons_nth_drop_Suc)
    from True "1.prems" have "checksum_loop p (i + 1) (s + (p ! i AND 0x7F)) =
        fold (\<lambda>b s. s + (b AND 0x7F)) (drop (i + 1) p) (s + (p ! i AND 0x7F))"
      by (intro "1.IH") simp_all
    then show ?thesis
      using True by (subst checksum_loop.simps) (simp add: d)
  next
    case False
    then show ?thesis
      using "1.prems" by (subst checksum_loop.simps) simp
  qed
qed

lemma uint_fold_masked:
  "uint (fold (\<lambda>b s. s + (b AND 0x7F)) p (s :: byte)) = (uint s + masked_sum p) mod 256"
proof (induction p arbitrary: s)
  case Nil
  have "uint s < 256"
    using uint_lt2p [of s] by simp
  then show ?case
    by (simp add: masked_sum_def)
next
  case (Cons b p)
  have "uint (fold (\<lambda>b s. s + (b AND 0x7F)) (b # p) s) =
        (uint (s + (b AND 0x7F)) + masked_sum p) mod 256"
    using Cons.IH by simp
  also have "\<dots> = ((uint s + uint (b AND 0x7F)) mod 256 + masked_sum p) mod 256"
    by (simp add: uint_word_ariths)
  also have "\<dots> = (uint s + masked_sum (b # p)) mod 256"
    by (simp add: masked_sum_def mod_add_left_eq add.assoc)
  finally show ?case .
qed

lemma uint_checksum_loop:
  "length p = 4096 \<Longrightarrow> uint (checksum_loop p 0 0) = masked_sum p mod 256"
  by (simp add: checksum_loop_fold uint_fold_masked)

lemma uint_computed_checksum:
  assumes "length p = 4096"
  shows "uint (computed_checksum p) = recomputeChecksum p"
proof -
  define s where "s = checksum_loop p 0 0"
  have s: "uint s = masked_sum p mod 256"
    unfolding s_def using assms by (rule uint_checksum_loop)
  have m: "(- uint s) mod 256 = (- masked_sum p) mod 256"
    unfolding s by (simp add: mod_minus_eq)
  have neg: "(word_of_int (NOT (uint s) + 1) :: byte) = - s"
    by (simp add: not_int_def)
  have "uint (computed_checksum p) = uint ((- s) AND 0x7F)"
    by (simp only: computed_checksum_def Let_def s_def [symmetric] neg)
  also have "(- s) AND 0x7F = take_bit 7 (- s)"
    by (simp add: take_bit_eq_mask mask_eq_exp_minus_1)
  also have "uint (take_bit 7 (- s)) = uint (- s) mod 128"
    by (simp only: unsigned_take_bit_eq) (simp add: take_bit_eq_mod)
  also have "\<dots> = ((- uint s) mod 256) mod 128"
    by (simp add: uint_word_ariths)
  also have "\<dots> = ((- masked_sum p) mod 256) mod 128"
    by (simp only: m)
  also have "\<dots> = (- masked_sum p) mod 128"
    by (rule mod_mod_cancel) simp
  finally show ?thesis by (simp add: recomputeChecksum_def)
qed

text \<open>
  C1.  For every 4096-byte payload and stored checksum byte, once the six marker checks
  have passed the validator accepts exactly when the stored byte equals the two's
  complement of the unbounded sum of the payload bytes, each masked to 7 bits, itself
  masked to 7 bits; so recomputing the checksum over the payload of an accepted message
  gives the stored byte.
\<close>

theorem verify_checksum_iff:
  assumes "length (voices sysex) = 4096"
  shows "(markers_ok sysex \<longrightarrow>
            (verify sysex = Inr () \<longleftrightarrow> uint (checksum sysex) = recomputeChecksum (voices sysex)))
       \<and> (verify sysex = Inr () \<longrightarrow> recomputeChecksum (voices sysex) = uint (checksum sysex))"
proof -
  have c: "uint (computed_checksum (voices sysex)) = recomputeChecksum (voices sysex)"
    using assms by (rule uint_computed_checksum)
  have a: "markers_ok sysex \<Longrightarrow>
      (verify sysex = Inr ()) = (uint (checksum sysex) = recomputeChecksum (voices sysex))"
    unfolding c [symmetric] by (auto simp: verify_def markers_ok_def Let_def word_uint_eq_iff)
  have b: "verify sysex = Inr () \<Longrightarrow> recomputeChecksum (voices sysex) = uint (checksum sysex)"
    unfolding c [symmetric] by (auto simp: verify_def Let_def word_uint_eq_iff split: if_splits)
  from a b show ?thesis by blast
qed

lemma length_sample_voices: "length sample_voices = 4096"
  by (simp add: sample_voices_def sample_params_def)

lemma masked_sum_sample: "masked_sum sample_voices = 1640"
  by (simp add: masked_sum_def sample_voices_def sample_params_def sum_list_replicate)

lemma markers_ok_sample: "markers_ok sample_bank"
  by (simp add: sample_bank_def markers_ok_def)

lemma sample_bank_sel: "voices sample_bank = sample_voices" "checksum sample_bank = 24"
  by (simp_all add: sample_bank_def)

lemma computed_checksum_sample: "computed_checksum sample_voices = 24"
proof -
  have "uint (computed_checksum sample_voices) = 24"
    by (simp add: uint_computed_checksum length_sample_voices recomputeChecksum_def
        masked_sum_sample)
  then show ?thesis
    by (simp add: word_uint_eq_iff)
qed

theorem verify_checksum_iff_witness:
  "length (voices sample_bank) = 4096 \<and> markers_ok sample_bank \<and> verify sample_bank = Inr ()
   \<and> recomputeChecksum (voices sample_bank) = 24 \<and> checksum sample_bank = 24"
proof -
  have l: "length (voices sample_bank) = 4096"
    by (simp add: sample_bank_sel length_sample_voices)
  have r: "recomputeChecksum (voices sample_bank) = 24"
    by (simp add: sample_bank_sel recomputeChecksum_def masked_sum_sample)
  have "verify sample_bank = Inr ()"
    using verify_checksum_iff [OF l] markers_ok_sample r by (simp add: sample_bank_sel(2))
  with l r markers_ok_sample show ?thesis
    by (simp add: sample_bank_sel(2))
qed

section \<open>The order of the checks\<close>

lemma verify_validate: "verify sysex = validate sysex"
  by (auto simp: verify_def validate_def failing_checks_def checks_in_order_def Let_def)

lemma reason_message_inj:
  "verify_message (reason sysex c) = verify_message (reason sysex' d) \<Longrightarrow> c = d"
  by (cases c; cases d) simp_all

text \<open>
  C2, as the claim states it, fails on its last clause: the bank with wrong start and
  vendor markers and a wrong checksum fails both the vendor-marker check and the checksum
  check, and the error reported is the one of the start marker.
\<close>

theorem verify_order_counterexample:
  "\<not> passes misframed_bank VendorMarker \<and> \<not> passes misframed_bank Checksum
   \<and> verify misframed_bank = Inl NoSysexStart
   \<and> verify misframed_bank \<noteq> Inl NoYamaha"
  by (simp add: misframed_bank_def broken_bank_def sample_bank_def computed_checksum_sample
      verify_def)

text \<open>
  C2, amended.  The validator reports the first check, in the order start marker, vendor
  marker, sub-status/channel, format code, size bytes, end marker, checksum, that the
  buffer fails, and accepts when there is none; different checks report different errors,
  with different messages; so a buffer that passes the start-marker check and fails both
  the vendor-marker check and the checksum check reports the vendor-marker error.
\<close>

theorem verify_order:
  "verify sysex = validate sysex
   \<and> (\<forall>c d sysex'. c \<noteq> d \<longrightarrow> reason sysex c \<noteq> reason sysex' d
          \<and> verify_message (reason sysex c) \<noteq> verify_message (reason sysex' d))
   \<and> (passes sysex StartMarker \<and> \<not> passes sysex VendorMarker \<and> \<not> passes sysex Checksum
          \<longrightarrow> verify sysex = Inl NoYamaha)"
proof -
  have a: "verify sysex = validate sysex"
    by (rule verify_validate)
  have b: "verify_message (reason sysex c) \<noteq> verify_message (reason sysex' d)"
    if "c \<noteq> d" for c d sysex'
    using that reason_message_inj by blast
  then have b': "reason sysex c \<noteq> reason sysex' d" if "c \<noteq> d" for c d sysex'
    using that by metis
  have c: "verify sysex = Inl NoYamaha"
    if "passes sysex StartMarker \<and> \<not> passes sysex VendorMarker \<and> \<not> passes sysex Checksum"
    using that by (simp add: verify_def)
  from a b b' c show ?thesis by blast
qed

lemma failing_checks_broken: "failing_checks broken_bank = [VendorMarker, Checksum]"
  by (simp add: failing_checks_def checks_in_order_def broken_bank_def sample_bank_def
      computed_checksum_sample)

theorem verify_order_witness:
  "failing_checks broken_bank = [VendorMarker, Checksum]
   \<and> verify broken_bank = Inl NoYamaha
   \<and> verify_message (reason broken_bank VendorMarker) \<noteq> verify_message (reason broken_bank Checksum)"
proof -
  have f: "failing_checks broken_bank = [VendorMarker, Checksum]"
    by (rule failing_checks_broken)
  have p: "passes broken_bank StartMarker \<and> \<not> passes broken_bank VendorMarker
      \<and> \<not> passes broken_bank Checksum"
    by (simp add: broken_bank_def sample_bank_def computed_checksum_sample)
  have d: "VendorMarker \<noteq> Checksum"
    by simp
  from f p d verify_order [of broken_bank] show ?thesis
    by blast
qed

section \<open>Decimal digits\<close>

lemma dec_small: "n < 10 \<Longrightarrow> dec n = [digit_char n]"
  by (subst dec.simps) simp

lemma dec_large: "10 \<le> n \<Longrightarrow> dec n = dec (n div 10) @ [digit_char (n mod 10)]"
  by (subst dec.simps) simp

lemma length_dec_small: "n < 10 \<Longrightarrow> length (dec n) = 1"
  by (simp add: dec_small)

section \<open>Note names\<close>

lemma length_note_name: "n < 12 \<Longrightarrow> length (note_names ! n) \<le> 2"
proof -
  assume "n < 12"
  then have "n \<in> set [0..<12]"
    by simp
  then show ?thesis
    unfolding note_names_def upt_rec_numeral by (auto simp: nth_Cons')
qed

lemma note_str_nth: "note_str x = note_names ! (unat x mod 12)"
  by (simp add: note_str_def unat_mod)

lemma transpose_in_range:
  assumes "(x :: u32) \<le> 48"
  shows "transpose_str x = note_names ! (unat x mod 12) @ dec (unat x div 12 + 1)"
proof -
  have u: "unat x \<le> 48"
    using assms by (simp add: word_le_nat_alt)
  have q: "unat (x div 12 + 1) = unat x div 12 + 1"
    using u by (simp add: unat_word_ariths unat_div)
  have "unat x div 12 + 1 < 10"
    using u by simp
  then have l: "length (dec (unat x div 12 + 1)) = 1"
    by (rule length_dec_small)
  have "length (note_names ! (unat x mod 12)) \<le> 2"
    by (rule length_note_name) simp
  with l have "length (note_names ! (unat x mod 12) @ dec (unat x div 12 + 1)) \<le> 8"
    by simp
  then show ?thesis
    using assms by (simp add: transpose_str_def note_str_nth q not_less [symmetric])
qed

lemma transpose_examples:
  "transpose_str 0 = ''C1''" "transpose_str 12 = ''C2''" "transpose_str 48 = ''C5''"
  "transpose_str 49 = ''*out of range*''"
  by (simp_all add: transpose_str_def note_str_def note_names_def dec_small digit_char_def)

text \<open>
  C4.  A transpose value \<open>x\<close> from 0 to 48 is rendered as the note name at index
  \<open>x mod 12\<close> followed by the octave \<open>x div 12 + 1\<close>, a larger one as \<open>*out of range*\<close>;
  0 gives \<open>C1\<close>, 12 gives \<open>C2\<close>, 48 gives \<open>C5\<close>, 49 gives \<open>*out of range*\<close>; and this text
  is what the \<open>Transpose:\<close> line of a voice shows in parentheses.
\<close>

theorem transpose_rendering:
  "(x \<le> 48 \<longrightarrow> transpose_str x = note_names ! (unat x mod 12) @ dec (unat x div 12 + 1))
   \<and> (x > 48 \<longrightarrow> transpose_str x = ''*out of range*'')
   \<and> transpose_str 0 = ''C1'' \<and> transpose_str 12 = ''C2'' \<and> transpose_str 48 = ''C5''
   \<and> transpose_str 49 = ''*out of range*''
   \<and> format_voice_head filename voiceNumber voice ! 25 =
       ''Transpose: '' @ setw2 (unat (transpose voice))
         @ '' ('' @ transpose_str (ucast (transpose voice)) @ '')''"
proof -
  have "x > 48 \<Longrightarrow> transpose_str x = ''*out of range*''"
    by (simp add: transpose_str_def)
  moreover have "format_voice_head filename voiceNumber voice ! 25 =
       ''Transpose: '' @ setw2 (unat (transpose voice))
         @ '' ('' @ transpose_str (ucast (transpose voice)) @ '')''"
    by (simp add: format_voice_head_def)
  ultimately show ?thesis
    using transpose_in_range [of x] transpose_examples by blast
qed

theorem transpose_rendering_witness:
  "(13 :: u32) \<le> 48 \<and> transpose_str 13 = ''C#2'' \<and> (200 :: u32) > 48
   \<and> transpose_str 200 = ''*out of range*''"
  using transpose_rendering [of 13] transpose_rendering [of 200]
  by (simp add: note_names_def dec_small digit_char_def)

section \<open>Break points\<close>

lemma c_div_pos: "0 \<le> a \<Longrightarrow> 0 < b \<Longrightarrow> c_div a b = a div b"
  by (cases "a = 0") (simp_all add: c_div_def)

lemma length_dec_int_octave: "- 1 \<le> k \<Longrightarrow> k < 10 \<Longrightarrow> length (dec_int k) \<le> 2"
  by (cases "k < 0") (simp_all add: dec_int_def dec_small)

lemma breakPoint_in_range:
  assumes "(x :: u32) \<le> 99"
  shows "breakPoint x = note_names ! ((unat x + 9) mod 12)
           @ dec_int (c_div (int (unat x) - 3 + 12) 12 - 1)"
proof -
  have u: "unat x \<le> 99"
    using assms by (simp add: word_le_nat_alt)
  have s: "sint x = int (unat x)"
  proof -
    have "uint x = int (unat x)"
      by simp
    then have "uint x \<le> 99"
      using u by linarith
    then have "uint x < 2 ^ 31"
      by simp
    moreover have "- (2 ^ 31) \<le> uint x"
    proof -
      have "(- (2 ^ 31) :: int) \<le> 0"
        by simp
      also have "0 \<le> uint x"
        by simp
      finally show ?thesis .
    qed
    ultimately have "signed_take_bit 31 (uint x) = uint x"
      by (intro signed_take_bit_int_eq_self)
    then show ?thesis
      by (simp add: sint_uint)
  qed
  have n: "unat (x + 9) = unat x + 9"
    using u by (simp add: unat_word_ariths)
  have ui: "0 \<le> uint x" "uint x \<le> 99"
    using assms by (simp_all add: word_le_def)
  have d: "c_div (int (unat x) - 3 + 12) 12 = (uint x + 9) div 12"
    by (simp add: c_div_pos add.commute)
  have "0 \<le> (uint x + 9) div 12" and "(uint x + 9) div 12 < 11"
    using ui by presburger+
  then have "- 1 \<le> c_div (int (unat x) - 3 + 12) 12 - 1"
    and "c_div (int (unat x) - 3 + 12) 12 - 1 < 10"
    unfolding d by linarith+
  then have "length (dec_int (c_div (int (unat x) - 3 + 12) 12 - 1)) \<le> 2"
    by (rule length_dec_int_octave)
  moreover have "length (note_names ! ((unat x + 9) mod 12)) \<le> 2"
    by (rule length_note_name) simp
  ultimately have "length (note_names ! ((unat x + 9) mod 12)
           @ dec_int (c_div (int (unat x) - 3 + 12) 12 - 1)) \<le> 8"
    by simp
  then show ?thesis
    using assms by (simp add: breakPoint_def note_str_nth s n Let_def not_less [symmetric])
qed

lemma breakPoint_zero: "breakPoint 0 = ''A-1''"
  by (simp add: breakPoint_def note_str_def note_names_def c_div_def dec_int_def dec_small
      digit_char_def)

text \<open>
  C5.  A level-scale break point \<open>x\<close> from 0 to 99 is rendered as the note name at index
  \<open>(x + 9) mod 12\<close> followed by the octave \<open>(x - 3 + 12) / 12 - 1\<close> in C's signed
  division, a larger one as \<open>*out of range*\<close>; 0 gives \<open>A-1\<close>; and this text is what the
  \<open>Break Point:\<close> line of an operator shows in parentheses.
\<close>

theorem breakPoint_rendering:
  "(x \<le> 99 \<longrightarrow> breakPoint x = note_names ! ((unat x + 9) mod 12)
                     @ dec_int (c_div (int (unat x) - 3 + 12) 12 - 1))
   \<and> (x > 99 \<longrightarrow> breakPoint x = ''*out of range*'')
   \<and> breakPoint 0 = ''A-1''
   \<and> format_operator hz i op ! 12 =
       ''    Break Point: '' @ setw2 (unat (levelScaleBreakPoint op))
         @ '' ('' @ breakPoint (ucast (levelScaleBreakPoint op)) @ '')''"
proof -
  have "x > 99 \<Longrightarrow> breakPoint x = ''*out of range*''"
    by (simp add: breakPoint_def)
  moreover have "format_operator hz i op ! 12 =
       ''    Break Point: '' @ setw2 (unat (levelScaleBreakPoint op))
         @ '' ('' @ breakPoint (ucast (levelScaleBreakPoint op)) @ '')''"
    by (simp add: format_operator_def)
  ultimately show ?thesis
    using breakPoint_in_range [of x] breakPoint_zero by blast
qed

theorem breakPoint_rendering_witness:
  "(2 :: u32) \<le> 99 \<and> breakPoint 2 = ''B-1'' \<and> (99 :: u32) \<le> 99 \<and> breakPoint 99 = ''C8''
   \<and> (100 :: u32) > 99 \<and> breakPoint 100 = ''*out of range*''"
  using breakPoint_rendering [of 2] breakPoint_rendering [of 99] breakPoint_rendering [of 100]
  by (simp add: note_names_def c_div_def dec_int_def dec_small digit_char_def)

section \<open>Key-sync flags\<close>

lemma one_bit_cases: "(w :: 1 word) = 0 \<or> w = 1"
proof -
  have "unat w < 2"
    using unsigned_less [of w, where ?'a = nat] by simp
  then have "unat w = 0 \<or> unat w = 1"
    by arith
  then show ?thesis
    by (auto simp: word_unat_eq_iff)
qed

lemma onOff_one_bit: "onOff (ucast (w :: 1 word)) = (if w = 0 then ''Off'' else ''On'')"
  using one_bit_cases [of w] by (auto simp: onOff_def)

lemma setw2_one_bit: "setw2 (unat (w :: 1 word)) = (if w = 0 then ''00'' else ''01'')"
  using one_bit_cases [of w] by (auto simp: setw2_def dec_small digit_char_def)

text \<open>
  C10.  The oscillator-key-sync and LFO-key-sync members are 1-bit fields: whatever the
  bytes of the voice, their value is 0 or 1, \<open>onOff\<close> never answers \<open>*out of range*\<close> for
  them, and the two key-sync lines end in \<open>(Off)\<close> or \<open>(On)\<close>.
\<close>

theorem key_sync_on_or_off:
  "unat (oscillatorKeySync (VoicePacked_of bs)) \<in> {0, 1}
   \<and> unat (lfoKeySync (VoicePacked_of bs)) \<in> {0, 1}
   \<and> onOff (ucast (oscillatorKeySync voice)) \<in> {''Off'', ''On''}
   \<and> onOff (ucast (lfoKeySync voice)) \<in> {''Off'', ''On''}
   \<and> format_voice_head filename voiceNumber voice ! 16
        \<in> {''Oscillator Key Sync: 00 (Off)'', ''Oscillator Key Sync: 01 (On)''}
   \<and> format_voice_head filename voiceNumber voice ! 22
        \<in> {''  Key Sync: 00 (Off)'', ''  Key Sync: 01 (On)''}"
proof -
  have "unat (w :: 1 word) \<in> {0, 1}" for w
    using one_bit_cases [of w] by auto
  moreover have "onOff (ucast (w :: 1 word)) \<in> {''Off'', ''On''}" for w
    by (simp add: onOff_one_bit)
  moreover have "format_voice_head filename voiceNumber voice ! 16
        \<in> {''Oscillator Key Sync: 00 (Off)'', ''Oscillator Key Sync: 01 (On)''}"
    by (simp add: format_voice_head_def onOff_one_bit setw2_one_bit)
  moreover have "format_voice_head filename voiceNumber voice ! 22
        \<in> {''  Key Sync: 00 (Off)'', ''  Key Sync: 01 (On)''}"
    by (simp add: format_voice_head_def onOff_one_bit setw2_one_bit)
  ultimately show ?thesis
    by blast
qed

section \<open>The order of the operators\<close>

lemma length_format_operator: "length (format_operator hz i op) = 25"
  by (simp add: format_operator_def)

lemma format_operators_concat:
  "i \<le> 6 \<Longrightarrow> format_operators hz voice i =
     concat (map (\<lambda>k. format_operator hz k (operators voice ! (5 - k))) [i..<6])"
proof (induction hz voice i rule: format_operators.induct)
  case (1 hz voice i)
  show ?case
  proof (cases "i < 6")
    case True
    then have "format_operators hz voice (i + 1) =
        concat (map (\<lambda>k. format_operator hz k (operators voice ! (5 - k))) [i + 1..<6])"
      by (intro "1.IH") simp_all
    then show ?thesis
      using True by (subst format_operators.simps) (simp add: upt_conv_Cons)
  next
    case False
    then show ?thesis
      by (subst format_operators.simps) simp
  qed
qed

lemma block_of_concat:
  "\<forall>x \<in> set xs. length x = n \<Longrightarrow> i < length xs \<Longrightarrow> take n (drop (n * i) (concat xs)) = xs ! i"
proof (induction xs arbitrary: i)
  case Nil
  then show ?case by simp
next
  case (Cons x xs)
  show ?case
  proof (cases i)
    case 0
    with Cons.prems show ?thesis by simp
  next
    case (Suc j)
    with Cons.prems have "take n (drop (n * j) (concat xs)) = xs ! j"
      by (intro Cons.IH) simp_all
    with Cons.prems Suc show ?thesis by simp
  qed
qed

lemma operator_block:
  assumes "i < 6"
  shows "take 25 (drop (25 * i) (format_operators hz voice 0)) =
         format_operator hz i (operators voice ! (5 - i))"
proof -
  let ?blocks = "map (\<lambda>k. format_operator hz k (operators voice ! (5 - k))) [0..<6]"
  have "take 25 (drop (25 * i) (concat ?blocks)) = ?blocks ! i"
    using assms by (intro block_of_concat) (simp_all add: length_format_operator)
  then show ?thesis
    using assms by (simp add: format_operators_concat)
qed

lemma length_format_operators: "length (format_operators hz voice 0) = 150"
  by (simp add: format_operators_concat length_concat comp_def length_format_operator
      sum_list_triv)

lemma operators_VoicePacked_of:
  "j < 6 \<Longrightarrow> operators (VoicePacked_of bs) ! j = OperatorPacked_of (operator_slot bs j)"
  by (simp add: VoicePacked_of_def)

lemma length_format_voice_head: "length (format_voice_head filename voiceNumber voice) = 26"
  by (simp add: format_voice_head_def)

text \<open>
  C3.  In the long listing of every voice, the 25 lines under the heading
  \<open>Operator i+1\<close> (\<open>i\<close> from 0 to 5) render the operator record stored at slot \<open>5 - i\<close>
  of the voice's block of six; operator 1 shows slot 5, the bytes 85 to 101 of the voice.
\<close>

theorem operator_order:
  assumes "i < 6"
  shows "take 25 (drop (26 + 25 * i)
            (format_voice hz filename True voiceNumber (voice_at sysex voiceNumber))) =
         format_operator hz i
           (OperatorPacked_of (operator_slot (voice_bytes sysex voiceNumber) (5 - i)))
       \<and> format_operator hz i op ! 1 = ''Operator '' @ setw2 (i + 1) @ '': ''
       \<and> operator_slot bs 5 = take 17 (drop 85 bs)"
proof -
  let ?v = "voice_at sysex voiceNumber"
  have "take 25 (drop (26 + 25 * i) (format_voice hz filename True voiceNumber ?v)) =
        take 25 (drop (25 * i) (format_operators hz ?v 0))"
    using assms by (simp add: format_voice_def length_format_voice_head
        length_format_operators)
  also have "\<dots> = format_operator hz i (operators ?v ! (5 - i))"
    using assms by (rule operator_block)
  also have "operators ?v ! (5 - i) =
      OperatorPacked_of (operator_slot (voice_bytes sysex voiceNumber) (5 - i))"
    using assms by (simp add: voice_at_def operators_VoicePacked_of)
  finally show ?thesis
    by (simp add: format_operator_def operator_slot_def sizeof_OperatorPacked_def)
qed


section \<open>The sample bank, voice by voice\<close>

lemma voice_bytes_sample:
  "voice_bytes sample_bank 0 = sample_params @ replicate 10 0x41"
  "voice_bytes sample_bank 1 = sample_params @ replicate 10 0x42"
  "voice_bytes sample_bank 2 = 0x86 # replicate 127 0"
  by (simp_all add: voice_bytes_def sample_bank_def sample_voices_def sample_params_def
      sizeof_VoicePacked_def)

lemma operator_slot_sample:
  "operator_slot (sample_params @ replicate 10 0x41) 5 = 0x63 # replicate 16 0"
  "operator_slot (sample_params @ replicate 10 0x41) 0 = 0x85 # replicate 16 0"
  by (simp_all add: operator_slot_def sample_params_def sizeof_OperatorPacked_def)

lemma setw2_examples:
  "setw2 (Suc 0) = ''01''" "setw2 1 = ''01''" "setw2 32 = ''32''" "setw2 99 = ''99''"
  "setw2 133 = ''133''"
  by (simp_all add: setw2_def dec_small dec_large digit_char_def)

lemma egRate1_of: "egRate1 (OperatorPacked_of (b # bs)) = b"
  by (simp add: OperatorPacked_of_def)

theorem operator_order_witness:
  "(0 :: nat) < 6 \<and> (5 :: nat) < 6
   \<and> take 25 (drop (26 + 25 * 0)
         (format_voice sample_hz ''bank.syx'' True 0 (voice_at sample_bank 0))) ! 1 = ''Operator 01: ''
   \<and> take 25 (drop (26 + 25 * 0)
         (format_voice sample_hz ''bank.syx'' True 0 (voice_at sample_bank 0))) ! 3 = ''    Rate 1: 99''
   \<and> take 25 (drop (26 + 25 * 5)
         (format_voice sample_hz ''bank.syx'' True 0 (voice_at sample_bank 0))) ! 3 = ''    Rate 1: 133''"
proof -
  let ?out = "format_voice sample_hz ''bank.syx'' True 0 (voice_at sample_bank 0)"
  have a: "(0 :: nat) < 6" and b: "(5 :: nat) < 6"
    by simp_all
  have e0: "take 25 (drop (26 + 25 * 0) ?out) =
      format_operator sample_hz 0 (OperatorPacked_of (0x63 # replicate 16 0))"
    using operator_order [OF a, of sample_hz "''bank.syx''" 0 sample_bank]
    by (simp add: voice_bytes_sample operator_slot_sample)
  have e5: "take 25 (drop (26 + 25 * 5) ?out) =
      format_operator sample_hz 5 (OperatorPacked_of (0x85 # replicate 16 0))"
    using operator_order [OF b, of sample_hz "''bank.syx''" 0 sample_bank]
    by (simp add: voice_bytes_sample operator_slot_sample)
  show ?thesis
    unfolding e0 e5 by (simp add: format_operator_def egRate1_of setw2_examples)
qed

section \<open>The patch filter\<close>

lemma format_loop_concat:
  "n \<le> 32 \<Longrightarrow> format_loop hz sysex filename long p n =
     concat (map (\<lambda>k. if p \<ge> 0 \<and> p \<noteq> int k + 1 then []
                        else format_voice hz filename long k (voice_at sysex k)) [n..<32])"
proof (induction hz sysex filename long p n rule: format_loop.induct)
  case (1 hz sysex filename long p n)
  show ?case
  proof (cases "n < 32")
    case True
    then have "format_loop hz sysex filename long p (n + 1) =
        concat (map (\<lambda>k. if p \<ge> 0 \<and> p \<noteq> int k + 1 then []
                           else format_voice hz filename long k (voice_at sysex k)) [n + 1..<32])"
      by (intro "1.IH") simp_all
    then show ?thesis
      using True by (subst format_loop.simps) (simp add: upt_conv_Cons)
  next
    case False
    then show ?thesis
      by (subst format_loop.simps) simp
  qed
qed

lemma concat_all_empty: "\<forall>k \<in> set xs. g k = [] \<Longrightarrow> concat (map g xs) = []"
  by (induction xs) simp_all

lemma concat_only_one:
  "distinct xs \<Longrightarrow> m \<in> set xs \<Longrightarrow> \<forall>k \<in> set xs. k \<noteq> m \<longrightarrow> g k = [] \<Longrightarrow>
   concat (map g xs) = g m"
proof (induction xs)
  case Nil
  then show ?case by simp
next
  case (Cons x xs)
  show ?case
  proof (cases "x = m")
    case True
    with Cons.prems have "\<forall>k \<in> set xs. g k = []"
      by auto
    then have "concat (map g xs) = []"
      by (rule concat_all_empty)
    with True show ?thesis by simp
  next
    case False
    with Cons.prems have "g x = []" and "concat (map g xs) = g m"
      by (auto intro: Cons.IH)
    then show ?thesis by simp
  qed
qed

lemma format_single:
  assumes "1 \<le> N" and "N \<le> 32"
  shows "format hz sysex filename long N =
         format_voice hz filename long (nat (N - 1)) (voice_at sysex (nat (N - 1)))"
proof -
  let ?g = "\<lambda>k. if N \<ge> 0 \<and> N \<noteq> int k + 1 then []
                 else format_voice hz filename long k (voice_at sysex k)"
  have "concat (map ?g [0..<32]) = ?g (nat (N - 1))"
    using assms by (intro concat_only_one) auto
  also have "\<dots> = format_voice hz filename long (nat (N - 1)) (voice_at sysex (nat (N - 1)))"
    using assms by simp
  finally show ?thesis
    by (simp add: format_def format_loop_concat)
qed

lemma format_none:
  assumes "N = 0 \<or> 32 < N"
  shows "format hz sysex filename long N = []"
proof -
  have "concat (map (\<lambda>k. if N \<ge> 0 \<and> N \<noteq> int k + 1 then []
                 else format_voice hz filename long k (voice_at sysex k)) [0..<32]) = []"
    using assms by (intro concat_all_empty) auto
  then show ?thesis
    by (simp add: format_def format_loop_concat)
qed

lemma format_all:
  assumes "N < 0"
  shows "format hz sysex filename long N =
         concat (map (\<lambda>k. format_voice hz filename long k (voice_at sysex k)) [0..<32])"
  using assms by (simp add: format_def format_loop_concat)

lemma length_format_voice_long: "length (format_voice hz filename True k voice) = 179"
  by (simp add: format_voice_def length_format_voice_head length_format_operators)

text \<open>
  C8, as the claim states it, fails for a negative patch number: \<open>-2\<close> is outside 1--32
  and the listing holds the long form of all 32 voices, 179 lines each.
\<close>

theorem format_negative_patch_counterexample:
  "format sample_hz sample_bank ''bank.syx'' True (- 2) \<noteq> []
   \<and> length (format sample_hz sample_bank ''bank.syx'' True (- 2)) = 32 * 179"
proof -
  have "length (format sample_hz sample_bank ''bank.syx'' True (- 2)) = 32 * 179"
    by (simp add: format_all length_concat comp_def length_format_voice_long sum_list_triv)
  then show ?thesis
    by auto
qed

lemma length_voices_of_buffer:
  "length buffer = 4104 \<Longrightarrow> length (voices (DX7Sysex_of buffer)) = 4096"
  by (simp add: DX7Sysex_of_def)

lemma sample_buffer_bank: "DX7Sysex_of sample_buffer = sample_bank"
  by (simp add: DX7Sysex_of_def sample_buffer_def sample_bank_def length_sample_voices
      nth_append)

lemma main_valid:
  "length buffer = 4104 \<Longrightarrow> verify (DX7Sysex_of buffer) = Inr () \<Longrightarrow>
   main hz long False N filename buffer = (format hz (DX7Sysex_of buffer) filename long N, 0)"
  by (simp add: main_def sysexSize_def)

text \<open>
  C8, amended.  For a patch number \<open>N\<close> from 1 to 32 the listing is the block of voice
  \<open>N\<close> and nothing else (its long form when \<open>displayLongListing\<close> is set, as \<open>-p\<close> sets
  it); for \<open>N = 0\<close> and for \<open>N > 32\<close> it is empty, and on a valid file the program
  writes nothing and exits with code 0; a negative \<open>N\<close> is the setting for all voices, as
  the \<open>-1\<close> that \<open>main\<close> starts from, and lists the 32 voices in order.
\<close>

theorem format_patch_filter:
  "(1 \<le> N \<and> N \<le> 32 \<longrightarrow>
      format hz sysex filename long N =
      format_voice hz filename long (nat (N - 1)) (voice_at sysex (nat (N - 1))))
   \<and> (N = 0 \<or> 32 < N \<longrightarrow> format hz sysex filename long N = [])
   \<and> (N = 0 \<or> 32 < N \<longrightarrow> length buffer = 4104 \<longrightarrow> verify (DX7Sysex_of buffer) = Inr () \<longrightarrow>
      main hz long False N filename buffer = ([], 0))
   \<and> (N < 0 \<longrightarrow>
      format hz sysex filename long N =
      concat (map (\<lambda>k. format_voice hz filename long k (voice_at sysex k)) [0..<32]))"
  using format_single [of N hz sysex filename long] format_none [of N hz sysex filename long]
    format_none [of N hz "DX7Sysex_of buffer" filename long]
    format_all [of N hz sysex filename long] main_valid [of buffer hz long N filename]
  by (metis (no_types, lifting))

lemma voice_bytes_sample_Suc:
  "voice_bytes sample_bank (Suc 0) = sample_params @ replicate 10 0x42"
  using voice_bytes_sample(2) by simp

lemma c_str_sample:
  "c_str (replicate 10 0x41 @ [0]) = ''AAAAAAAAAA''"
  "c_str (replicate 10 0x42 @ [0]) = ''BBBBBBBBBB''"
  by code_simp+

lemma name_sample:
  "c_str (name (voice_at sample_bank 0) @ [0]) = ''AAAAAAAAAA''"
  "c_str (name (voice_at sample_bank (Suc 0)) @ [0]) = ''BBBBBBBBBB''"
  by (simp_all add: voice_at_def voice_bytes_sample voice_bytes_sample_Suc VoicePacked_of_def
      sample_params_def c_str_sample)

theorem format_patch_filter_witness:
  "format sample_hz sample_bank ''bank.syx'' False 2 = [''02: BBBBBBBBBB'']
   \<and> format sample_hz sample_bank ''bank.syx'' False 0 = []
   \<and> format sample_hz sample_bank ''bank.syx'' False 33 = []
   \<and> length sample_buffer = 4104 \<and> verify (DX7Sysex_of sample_buffer) = Inr ()
   \<and> main sample_hz True False 33 ''bank.syx'' sample_buffer = ([], 0)
   \<and> take 2 (format sample_hz sample_bank ''bank.syx'' False (- 1)) =
        [''01: AAAAAAAAAA'', ''02: BBBBBBBBBB'']"
proof -
  have "take 2 (concat (map (\<lambda>k. format_voice sample_hz ''bank.syx'' False k
           (voice_at sample_bank k)) [0..<32])) = [''01: AAAAAAAAAA'', ''02: BBBBBBBBBB'']"
    by (simp add: upt_conv_Cons format_voice_def name_sample setw2_def dec_small digit_char_def)
  moreover have l: "length sample_buffer = 4104"
    by (simp add: sample_buffer_def length_sample_voices)
  moreover have v: "verify (DX7Sysex_of sample_buffer) = Inr ()"
    by (simp add: sample_buffer_bank verify_def sample_bank_def computed_checksum_sample)
  moreover have "main sample_hz True False 33 ''bank.syx'' sample_buffer = ([], 0)"
    using format_patch_filter [of 33 sample_hz sample_bank "''bank.syx''" True sample_buffer] l v
    by simp
  ultimately show ?thesis
    using format_patch_filter [of 2 sample_hz sample_bank "''bank.syx''" False]
      format_patch_filter [of 0 sample_hz sample_bank "''bank.syx''" False]
      format_patch_filter [of 33 sample_hz sample_bank "''bank.syx''" False]
      format_patch_filter [of "- 1" sample_hz sample_bank "''bank.syx''" False]
    by (simp add: format_voice_def name_sample setw2_def dec_small digit_char_def)
qed

section \<open>Numbers in the long listing\<close>

lemma setw2_small: "n < 10 \<Longrightarrow> setw2 n = [CHR ''0'', digit_char n]"
  by (simp add: setw2_def dec_small)

lemma length_dec_large: "10 \<le> n \<Longrightarrow> 2 \<le> length (dec n)"
proof -
  assume "10 \<le> n"
  then have "dec n = dec (n div 10) @ [digit_char (n mod 10)]"
    by (rule dec_large)
  moreover have "1 \<le> length (dec (n div 10))"
    by (subst dec.simps) simp
  ultimately show ?thesis
    by simp
qed

lemma setw2_large: "10 \<le> n \<Longrightarrow> setw2 n = dec n"
  using length_dec_large [of n] by (simp add: setw2_def)

lemma length_setw2: "n < 100 \<Longrightarrow> length (setw2 n) = 2"
proof (cases "n < 10")
  case True
  then show ?thesis
    by (simp add: setw2_small)
next
  case False
  moreover assume "n < 100"
  ultimately have "dec n = [digit_char (n div 10), digit_char (n mod 10)]"
    by (simp add: dec_large dec_small)
  with False show ?thesis
    by (simp add: setw2_large)
qed

lemma voice_raw_lines:
  "(k, label, v, ann) \<in> set (voice_raw_fields voice) \<Longrightarrow>
   format_voice_head filename voiceNumber voice ! k = raw_line label v ann"
  by (auto simp: voice_raw_fields_def format_voice_head_def raw_line_def)

lemma operator_raw_lines:
  "(k, label, v, ann) \<in> set (operator_raw_fields op) \<Longrightarrow>
   format_operator hz i op ! k = raw_line label v ann"
  by (auto simp: operator_raw_fields_def format_operator_def raw_line_def)

lemma frequency_line_ratio:
  "oscillatorMode op = 0 \<Longrightarrow>
   format_operator hz i op ! 22 = ''  Frequency Course: '' @ setw2 (unat (frequencyCoarse op))"
  by (simp add: format_operator_def frequency_text_def)

lemma frequency_line_fixed:
  "oscillatorMode op = 1 \<Longrightarrow>
   format_operator hz i op ! 22 = ''  Frequency Course: ''
      @ hz (unat (frequencyCoarse op) mod 4) (unat (frequencyFine op)) @ '' Hz''"
  by (simp add: format_operator_def frequency_text_def unat_mod)

lemma algorithm_line:
  "format_voice_head filename voiceNumber voice ! 5 =
   ''Algorithm: '' @ setw2 (unat (algorithm voice) + 1)"
  by (simp add: format_voice_head_def)

lemma format_long_head:
  "k < 26 \<Longrightarrow> format_voice hz filename True n voice ! k = format_voice_head filename n voice ! k"
  by (simp add: format_voice_def nth_append length_format_voice_head)

lemma fields_sample:
  "algorithm (voice_at sample_bank 0) = 31"
  "feedback (voice_at sample_bank 0) = 7"
  "oscillatorKeySync (voice_at sample_bank 0) = 1"
  by (simp_all add: voice_at_def voice_bytes_sample VoicePacked_of_def sample_params_def
      bitfield_def nth_append)

text \<open>
  C9, as the claim states it, fails on the \<open>Algorithm:\<close> line: the first voice of the sample
  bank has 31 in its 5-bit algorithm field and the line shows 32.
\<close>

theorem algorithm_line_counterexample:
  "algorithm (voice_at sample_bank 0) = 31
   \<and> format sample_hz sample_bank ''bank.syx'' True 1 ! 5 = ''Algorithm: 32''"
proof -
  have "format sample_hz sample_bank ''bank.syx'' True 1 ! 5 =
        format_voice_head ''bank.syx'' 0 (voice_at sample_bank 0) ! 5"
    by (simp add: format_single format_long_head)
  then show ?thesis
    by (simp add: algorithm_line fields_sample setw2_examples)
qed

text \<open>
  C9, amended.  In the long listing every raw numeric member other than the algorithm
  selector is printed as the decimal of its decoded value filled with zeros to two
  characters (two digits below 100, the plain decimal from 10 on): its line is the label,
  that number and, for a member with a name, the name in parentheses, and nothing else.
  So is the coarse frequency in ratio mode, and so are the voice and operator numbers.
  The \<open>Algorithm:\<close> line shows the decoded 5-bit field plus one.
\<close>

theorem raw_fields_zero_padded:
  "(\<forall>(k, label, v, ann) \<in> set (voice_raw_fields voice).
       format_voice_head filename voiceNumber voice ! k = raw_line label v ann)
   \<and> (\<forall>(k, label, v, ann) \<in> set (operator_raw_fields op).
       format_operator hz i op ! k = raw_line label v ann)
   \<and> raw_line label v None = label @ setw2 v
   \<and> raw_line label v (Some nm) = label @ setw2 v @ '' ('' @ nm @ '')''
   \<and> (oscillatorMode op = 0 \<longrightarrow>
       format_operator hz i op ! 22 = ''  Frequency Course: '' @ setw2 (unat (frequencyCoarse op)))
   \<and> format_voice_head filename voiceNumber voice ! 2 = ''Voice: '' @ setw2 (voiceNumber + 1)
   \<and> format_operator hz i op ! 1 = ''Operator '' @ setw2 (i + 1) @ '': ''
   \<and> format_voice_head filename voiceNumber voice ! 5 =
       ''Algorithm: '' @ setw2 (unat (algorithm voice) + 1)
   \<and> (n < 10 \<longrightarrow> setw2 n = [CHR ''0'', digit_char n])
   \<and> (10 \<le> n \<longrightarrow> setw2 n = dec n)
   \<and> (n < 100 \<longrightarrow> length (setw2 n) = 2)"
proof -
  have "format_voice_head filename voiceNumber voice ! 2 = ''Voice: '' @ setw2 (voiceNumber + 1)"
    by (simp add: format_voice_head_def)
  moreover have "format_operator hz i op ! 1 = ''Operator '' @ setw2 (i + 1) @ '': ''"
    by (simp add: format_operator_def)
  moreover have "raw_line label v None = label @ setw2 v"
    and "raw_line label v (Some nm) = label @ setw2 v @ '' ('' @ nm @ '')''"
    by (simp_all add: raw_line_def)
  moreover have "\<forall>(k, label, v, ann) \<in> set (voice_raw_fields voice).
       format_voice_head filename voiceNumber voice ! k = raw_line label v ann"
    using voice_raw_lines [of _ _ _ _ voice filename voiceNumber] by blast
  moreover have "\<forall>(k, label, v, ann) \<in> set (operator_raw_fields op).
       format_operator hz i op ! k = raw_line label v ann"
    using operator_raw_lines [of _ _ _ _ op hz i] by blast
  ultimately show ?thesis
    using frequency_line_ratio [of op hz i]
      algorithm_line [of filename voiceNumber voice] setw2_small [of n] setw2_large [of n]
      length_setw2 [of n]
    by blast
qed

theorem raw_fields_zero_padded_witness:
  "(15, ''Feedback: '', 7, None) \<in> set (voice_raw_fields (voice_at sample_bank 0))
   \<and> format_voice_head ''bank.syx'' 0 (voice_at sample_bank 0) ! 15 = ''Feedback: 07''
   \<and> (16, ''Oscillator Key Sync: '', 1, Some ''On'')
        \<in> set (voice_raw_fields (voice_at sample_bank 0))
   \<and> format_voice_head ''bank.syx'' 0 (voice_at sample_bank 0) ! 16 =
        ''Oscillator Key Sync: 01 (On)''
   \<and> (3, ''    Rate 1: '', 99, None)
        \<in> set (operator_raw_fields (OperatorPacked_of (0x63 # replicate 16 0)))
   \<and> format_operator sample_hz 0 (OperatorPacked_of (0x63 # replicate 16 0)) ! 3 =
        ''    Rate 1: 99''
   \<and> (3, ''    Rate 1: '', 133, None)
        \<in> set (operator_raw_fields (OperatorPacked_of (0x85 # replicate 16 0)))
   \<and> format_operator sample_hz 5 (OperatorPacked_of (0x85 # replicate 16 0)) ! 3 =
        ''    Rate 1: 133''
   \<and> oscillatorMode (OperatorPacked_of (0x63 # replicate 16 0)) = 0
   \<and> format_operator sample_hz 0 (OperatorPacked_of (0x63 # replicate 16 0)) ! 22 =
        ''  Frequency Course: 00''
   \<and> format_voice_head ''bank.syx'' 0 (voice_at sample_bank 0) ! 5 = ''Algorithm: 32''
   \<and> (7 :: nat) < 10 \<and> setw2 7 = ''07'' \<and> (10 :: nat) \<le> 133 \<and> setw2 133 = ''133''
   \<and> (99 :: nat) < 100 \<and> length (setw2 99) = 2"
proof -
  let ?v = "voice_at sample_bank 0"
  let ?op = "OperatorPacked_of (0x63 # replicate 16 0)"
  let ?op6 = "OperatorPacked_of (0x85 # replicate 16 0)"
  have m1: "(15, ''Feedback: '', 7, None) \<in> set (voice_raw_fields ?v)"
    by (simp add: voice_raw_fields_def fields_sample)
  have m1': "(16, ''Oscillator Key Sync: '', 1, Some ''On'') \<in> set (voice_raw_fields ?v)"
    by (simp add: voice_raw_fields_def fields_sample onOff_def)
  have m2: "(3, ''    Rate 1: '', 99, None) \<in> set (operator_raw_fields ?op)"
    by (simp add: operator_raw_fields_def egRate1_of)
  have m2': "(3, ''    Rate 1: '', 133, None) \<in> set (operator_raw_fields ?op6)"
    by (simp add: operator_raw_fields_def egRate1_of)
  have m3: "oscillatorMode ?op = 0" "unat (frequencyCoarse ?op) = 0"
    by (simp_all add: OperatorPacked_of_def bitfield_def)
  have s: "setw2 7 = ''07''" "setw2 0 = ''00''"
    by (simp_all add: setw2_small digit_char_def)
  note t7 = raw_fields_zero_padded [of ?v "''bank.syx''" 0 ?op sample_hz 0 _ _ _ 7]
  note t6 = raw_fields_zero_padded [of ?v "''bank.syx''" 0 ?op6 sample_hz 5 _ _ _ 7]
  note t133 = raw_fields_zero_padded [of ?v "''bank.syx''" 0 ?op sample_hz 0 _ _ _ 133]
  note t99 = raw_fields_zero_padded [of ?v "''bank.syx''" 0 ?op sample_hz 0 _ _ _ 99]
  have p1: "format_voice_head ''bank.syx'' 0 ?v ! 15 = raw_line ''Feedback: '' 7 None"
    using t7 m1 by blast
  have p1': "format_voice_head ''bank.syx'' 0 ?v ! 16 =
      raw_line ''Oscillator Key Sync: '' 1 (Some ''On'')"
    using t7 m1' by blast
  have p2: "format_operator sample_hz 0 ?op ! 3 = raw_line ''    Rate 1: '' 99 None"
    using t7 m2 by blast
  have p2': "format_operator sample_hz 5 ?op6 ! 3 = raw_line ''    Rate 1: '' 133 None"
    using t6 m2' by blast
  have r: "raw_line label v None = label @ setw2 v"
    "raw_line label v (Some nm) = label @ setw2 v @ '' ('' @ nm @ '')''" for label v nm
    using raw_fields_zero_padded [of ?v "''bank.syx''" 0 ?op sample_hz 0 label v nm 7]
    by blast+
  have p3: "format_operator sample_hz 0 ?op ! 22 =
      ''  Frequency Course: '' @ setw2 (unat (frequencyCoarse ?op))"
    using t7 m3 by blast
  have p4: "format_voice_head ''bank.syx'' 0 ?v ! 5 = ''Algorithm: '' @ setw2 (unat (algorithm ?v) + 1)"
    using t7 by blast
  have a: "(10 :: nat) \<le> 133" "(99 :: nat) < 100"
    by simp_all
  have p5: "setw2 133 = dec 133"
    using t133 a by blast
  have p6: "length (setw2 99) = 2"
    using t99 a by blast
  have "setw2 133 = ''133''"
    unfolding p5 by (simp add: dec_large dec_small digit_char_def)
  with m1 m1' m2 m2' m3 p1 p1' p2 p2' p3 p4 p6 show ?thesis
    by (simp add: r s setw2_examples fields_sample)
qed

section \<open>The duplicate detector\<close>

lemma memcmp_eq_0_iff:
  "n \<le> length a \<Longrightarrow> n \<le> length b \<Longrightarrow> memcmp a b n = 0 \<longleftrightarrow> take n a = take n b"
proof (induction n arbitrary: a b)
  case 0
  then show ?case by simp
next
  case (Suc n)
  from Suc.prems obtain x xs y ys where a: "a = x # xs" and b: "b = y # ys"
    by (cases a; cases b) auto
  with Suc.prems have "memcmp xs ys n = 0 \<longleftrightarrow> take n xs = take n ys"
    by (intro Suc.IH) simp_all
  then show ?case
    by (simp add: a b)
qed

lemma length_voice_bytes:
  "length (voices sysex) = 4096 \<Longrightarrow> k < 32 \<Longrightarrow> length (voice_bytes sysex k) = 128"
  by (simp add: voice_bytes_def sizeof_VoicePacked_def)

lemma memcmp_same_parameters:
  assumes "length (voices sysex) = 4096" and "i < 32" and "j < 32"
  shows "memcmp (voice_bytes sysex i) (voice_bytes sysex j) (sizeof_VoicePacked - 10) = 0
         \<longleftrightarrow> same_parameters sysex (Suc i) (Suc j)"
  using assms
  by (simp add: memcmp_eq_0_iff length_voice_bytes same_parameters_def sizeof_VoicePacked_def)

lemma duplicate_line_report:
  "duplicate_line (int i) (int j) = duplicate_report (Suc i, Suc j)"
  by (simp add: duplicate_line_def duplicate_report_def dec_int_def nat_add_distrib)

lemma findDuplicates_inner_concat:
  assumes "length (voices sysex) = 4096" and "i < 32"
  shows "j \<le> 32 \<Longrightarrow> findDuplicates_inner sysex (int i) (int j) =
     concat (map (\<lambda>b. if same_parameters sysex (Suc i) (Suc b)
                        then [duplicate_report (Suc i, Suc b)] else []) [j..<32])"
proof (induction "32 - j" arbitrary: j)
  case 0
  then show ?case
    by (subst findDuplicates_inner.simps) simp
next
  case (Suc d)
  then have j: "j < 32" and "d = 32 - Suc j" and "Suc j \<le> 32"
    by simp_all
  then have "findDuplicates_inner sysex (int i) (int (Suc j)) =
     concat (map (\<lambda>b. if same_parameters sysex (Suc i) (Suc b)
                        then [duplicate_report (Suc i, Suc b)] else []) [Suc j..<32])"
    by (intro Suc.hyps)
  then have ih: "findDuplicates_inner sysex (int i) (int j + 1) =
     concat (map (\<lambda>b. if same_parameters sysex (Suc i) (Suc b)
                        then [duplicate_report (Suc i, Suc b)] else []) [Suc j..<32])"
    by (simp add: add.commute)
  have m: "memcmp (voice_bytes sysex i) (voice_bytes sysex j) (sizeof_VoicePacked - 10) = 0
         \<longleftrightarrow> same_parameters sysex (Suc i) (Suc j)"
    using assms j by (intro memcmp_same_parameters)
  show ?case
    using j
    by (subst findDuplicates_inner.simps)
      (simp only: ih m upt_conv_Cons duplicate_line_report Let_def nat_int, simp)
qed

lemma findDuplicates_outer_concat:
  assumes "length (voices sysex) = 4096"
  shows "i \<le> 31 \<Longrightarrow> findDuplicates_outer sysex (int i) =
     concat (map (\<lambda>a. concat (map (\<lambda>b. if same_parameters sysex (Suc a) (Suc b)
                        then [duplicate_report (Suc a, Suc b)] else []) [Suc a..<32])) [i..<31])"
proof (induction "31 - i" arbitrary: i)
  case 0
  then show ?case
    by (subst findDuplicates_outer.simps) simp
next
  case (Suc d)
  then have i: "i < 31" and "d = 31 - Suc i" and "Suc i \<le> 31"
    by simp_all
  then have "findDuplicates_outer sysex (int (Suc i)) =
     concat (map (\<lambda>a. concat (map (\<lambda>b. if same_parameters sysex (Suc a) (Suc b)
                  then [duplicate_report (Suc a, Suc b)] else []) [Suc a..<32])) [Suc i..<31])"
    by (intro Suc.hyps)
  then have ih: "findDuplicates_outer sysex (int i + 1) =
     concat (map (\<lambda>a. concat (map (\<lambda>b. if same_parameters sysex (Suc a) (Suc b)
                  then [duplicate_report (Suc a, Suc b)] else []) [Suc a..<32])) [Suc i..<31])"
    by (simp add: add.commute)
  have "findDuplicates_inner sysex (int i) (int (Suc i)) =
     concat (map (\<lambda>b. if same_parameters sysex (Suc i) (Suc b)
                        then [duplicate_report (Suc i, Suc b)] else []) [Suc i..<32])"
    using assms i by (intro findDuplicates_inner_concat) simp_all
  then have inner: "findDuplicates_inner sysex (int i) (int i + 1) =
     concat (map (\<lambda>b. if same_parameters sysex (Suc i) (Suc b)
                        then [duplicate_report (Suc i, Suc b)] else []) [Suc i..<32])"
    by (simp add: add.commute)
  have u: "[i..<31] = i # [Suc i..<31]"
    using i by (simp add: upt_conv_Cons)
  show ?case
    using i by (subst findDuplicates_outer.simps) (simp add: ih inner u)
qed

lemma map_filter_concat_if:
  "map f (filter P (map h ys)) = concat (map (\<lambda>y. if P (h y) then [f (h y)] else []) ys)"
  by (induction ys) simp_all

lemma voice_pairs_shift:
  "voice_pairs = concat (map (\<lambda>a. map (\<lambda>b. (Suc a, Suc b)) [Suc a..<32]) [0..<31])"
proof -
  have "[1..<32] = map Suc [0..<31]"
    by (simp add: map_Suc_upt)
  moreover have "[Suc a + 1..<33] = map Suc [Suc a..<32]" for a :: nat
    by (simp add: map_Suc_upt)
  ultimately show ?thesis
    by (simp add: voice_pairs_def comp_def del: upt_Suc)
qed

lemma findDuplicates_filter:
  assumes "length (voices sysex) = 4096"
  shows "findDuplicates sysex =
         map duplicate_report (filter (\<lambda>(a, b). same_parameters sysex a b) voice_pairs)"
proof -
  have "map duplicate_report (filter (\<lambda>(a, b). same_parameters sysex a b) voice_pairs) =
     concat (map (\<lambda>a. concat (map (\<lambda>b. if same_parameters sysex (Suc a) (Suc b)
                  then [duplicate_report (Suc a, Suc b)] else []) [Suc a..<32])) [0..<31])"
    by (simp add: voice_pairs_shift filter_concat map_concat comp_def map_filter_concat_if)
  moreover have "findDuplicates sysex = findDuplicates_outer sysex (int 0)"
    by (simp add: findDuplicates_def)
  ultimately show ?thesis
    using findDuplicates_outer_concat [OF assms, of 0] by simp
qed

lemma set_voice_pairs: "set voice_pairs = {(a, b). 1 \<le> a \<and> a < b \<and> b \<le> 32}"
  by (force simp: voice_pairs_def)

lemma sorted_wrt_concat_map:
  "\<forall>x \<in> set xs. sorted_wrt R (f x) \<Longrightarrow>
   sorted_wrt (\<lambda>x y. \<forall>u \<in> set (f x). \<forall>v \<in> set (f y). R u v) xs \<Longrightarrow>
   sorted_wrt R (concat (map f xs))"
  by (induction xs) (auto simp: sorted_wrt_append)

lemma sorted_voice_pairs: "sorted_wrt pair_before voice_pairs"
  unfolding voice_pairs_def
proof (rule sorted_wrt_concat_map)
  show "\<forall>a \<in> set [1..<32]. sorted_wrt pair_before (map (Pair a) [a + 1..<33])"
    by (simp add: sorted_wrt_map pair_before_def del: upt_Suc)
  have "sorted_wrt (<) [1..<32::nat]"
    by (simp del: upt_Suc)
  then show "sorted_wrt (\<lambda>x y. \<forall>u \<in> set (map (Pair x) [x + 1..<33]).
        \<forall>v \<in> set (map (Pair y) [y + 1..<33]). pair_before u v) [1..<32]"
    by (rule sorted_wrt_mono_rel [rotated]) (auto simp: pair_before_def)
qed

lemma same_parameters_bytes:
  assumes "length (voices sysex) = 4096" and "1 \<le> a" "a \<le> 32" "1 \<le> b" "b \<le> 32"
  shows "same_parameters sysex a b \<longleftrightarrow>
         (\<forall>k < 118. voice_bytes sysex (a - 1) ! k = voice_bytes sysex (b - 1) ! k)"
proof -
  have "length (voice_bytes sysex (a - 1)) = 128" "length (voice_bytes sysex (b - 1)) = 128"
    using assms by (simp_all add: length_voice_bytes)
  then show ?thesis
    by (simp add: same_parameters_def sizeof_VoicePacked_def list_eq_iff_nth_eq)
qed

text \<open>
  C7.  On a bank of 32 voice records the detector writes one line for each pair of slots
  \<open>(a, b)\<close>, \<open>1 \<le> a < b \<le> 32\<close>, whose records agree on their first
  \<open>sizeof(VoicePacked) - 10 = 118\<close> bytes, that is on every byte before the name, and
  for no other pair; the lines come in ascending order of \<open>a\<close> and, for equal \<open>a\<close>, of
  \<open>b\<close>, and none is left out.
\<close>

theorem findDuplicates_pairs:
  assumes "length (voices sysex) = 4096"
  shows "findDuplicates sysex =
           map duplicate_report (filter (\<lambda>(a, b). same_parameters sysex a b) voice_pairs)
       \<and> set (filter (\<lambda>(a, b). same_parameters sysex a b) voice_pairs) =
           {(a, b). 1 \<le> a \<and> a < b \<and> b \<le> 32 \<and> same_parameters sysex a b}
       \<and> sorted_wrt pair_before voice_pairs
       \<and> (\<forall>(a, b) \<in> set voice_pairs.
             same_parameters sysex a b \<longleftrightarrow>
             (\<forall>k < 118. voice_bytes sysex (a - 1) ! k = voice_bytes sysex (b - 1) ! k))"
proof -
  have "set (filter (\<lambda>(a, b). same_parameters sysex a b) voice_pairs) =
           {(a, b). 1 \<le> a \<and> a < b \<and> b \<le> 32 \<and> same_parameters sysex a b}"
    by (auto simp: set_voice_pairs)
  moreover have "\<forall>(a, b) \<in> set voice_pairs.
             same_parameters sysex a b \<longleftrightarrow>
             (\<forall>k < 118. voice_bytes sysex (a - 1) ! k = voice_bytes sysex (b - 1) ! k)"
    using assms by (auto simp: set_voice_pairs same_parameters_bytes)
  ultimately show ?thesis
    using findDuplicates_filter [OF assms] sorted_voice_pairs by blast
qed

lemma length_sample_params: "length sample_params = 118"
  by (simp add: sample_params_def)

lemma same_parameters_sample:
  "same_parameters sample_bank 1 2" "\<not> same_parameters sample_bank 1 3"
proof -
  have "take 118 (voice_bytes sample_bank 0) = sample_params"
    "take 118 (voice_bytes sample_bank (Suc 0)) = sample_params"
    by (simp_all add: voice_bytes_sample voice_bytes_sample_Suc length_sample_params)
  moreover have "take 118 (voice_bytes sample_bank 2) = 0x86 # replicate 117 0"
    by (simp add: voice_bytes_sample)
  moreover have "sample_params \<noteq> 0x86 # replicate 117 0"
    by (simp add: sample_params_def)
  ultimately show "same_parameters sample_bank 1 2" "\<not> same_parameters sample_bank 1 3"
    by (simp_all add: same_parameters_def sizeof_VoicePacked_def)
qed

lemma names_sample_differ: "name (voice_at sample_bank 0) \<noteq> name (voice_at sample_bank 1)"
  by (simp add: voice_at_def voice_bytes_sample voice_bytes_sample_Suc VoicePacked_of_def
      length_sample_params)

theorem findDuplicates_pairs_witness:
  "length (voices sample_bank) = 4096
   \<and> (1, 2) \<in> set voice_pairs
   \<and> same_parameters sample_bank 1 2
   \<and> voice_bytes sample_bank (1 - 1) ! 117 = voice_bytes sample_bank (2 - 1) ! 117
   \<and> name (voice_at sample_bank 0) \<noteq> name (voice_at sample_bank 1)
   \<and> ''Found duplicates: Voice 1 and voice 2.'' \<in> set (findDuplicates sample_bank)
   \<and> \<not> same_parameters sample_bank 1 3
   \<and> (1, 3) \<notin> set (filter (\<lambda>(a, b). same_parameters sample_bank a b) voice_pairs)"
proof -
  let ?dups = "filter (\<lambda>(a, b). same_parameters sample_bank a b) voice_pairs"
  have l: "length (voices sample_bank) = 4096"
    by (simp add: sample_bank_sel length_sample_voices)
  note t = findDuplicates_pairs [OF l]
  have d: "(1, 2) \<in> set ?dups"
    using t same_parameters_sample by auto
  then have p: "(1, 2) \<in> set voice_pairs"
    by simp
  have "\<forall>k < 118. voice_bytes sample_bank (1 - 1) ! k = voice_bytes sample_bank (2 - 1) ! k"
    using t p same_parameters_sample(1) by blast
  then have k: "voice_bytes sample_bank (1 - 1) ! 117 = voice_bytes sample_bank (2 - 1) ! 117"
    by simp
  have "duplicate_report (1, 2) \<in> set (map duplicate_report ?dups)"
    using d unfolding set_map by (rule imageI)
  then have "duplicate_report (1, 2) \<in> set (findDuplicates sample_bank)"
    using t by simp
  then have a: "''Found duplicates: Voice 1 and voice 2.'' \<in> set (findDuplicates sample_bank)"
    by (simp add: duplicate_report_def dec_small digit_char_def)
  have b: "(1, 3) \<notin> set ?dups"
    using same_parameters_sample by simp
  from l p k a b same_parameters_sample names_sample_differ show ?thesis
    by simp
qed

end
